theory Spec2Isabelle
  imports Main
begin

section \<open>Command line arguments of thriftgo (args.go)\<close>

text \<open>
  A shallow embedding of \<^verbatim>\<open>args.go\<close>. Go strings are byte sequences and are modelled as
  \<^typ>\<open>string\<close>; \<^verbatim>\<open>len\<close> is \<^const>\<open>length\<close>. A Go \<^verbatim>\<open>error\<close> that may be nil is an
  optional value, and the \<^verbatim>\<open>nil\<close> error is \<^const>\<open>None\<close>.
\<close>

subsection \<open>The diagnostic stream and the ways a call can end\<close>

text \<open>
  An error is made by \<^verbatim>\<open>errors.New\<close> from a message, or by \<^verbatim>\<open>fmt.Errorf\<close> from a format
  string and operands, which are kept as they are.
\<close>

datatype go_error = Error string | Errorf string "operand list"
and operand = Str string | Err go_error

text \<open>
  The diagnostic stream \<^verbatim>\<open>os.Stderr\<close> is the sequence of items printed so far, one item
  for each print statement executed: \<open>Text s\<close> is the text \<open>s\<close>; \<open>ErrorLine e\<close> is the message
  of the error \<open>e\<close> and a newline, as \<^verbatim>\<open>fmt.Fprintln\<close> prints it; \<open>ErrorValue e\<close> is what the
  builtin \<^verbatim>\<open>println\<close> prints for an error value (the words of the interface value).
\<close>

datatype printed = Text string | ErrorLine go_error | ErrorValue go_error

type_synonym stream = "printed list"

text \<open>
  A call returns a value, ends the process through \<^verbatim>\<open>os.Exit\<close> with a status, or panics
  in the Go runtime; the panic names the expression that failed.
\<close>

datatype 'a outcome = Return 'a | Exit int | Panic string

definition nl :: string where
  "nl = [CHR 0x0A]"

subsection \<open>StringSlice\<close>

text \<open>
  \<^verbatim>\<open>type StringSlice []string\<close>. The flag fields are only ever read with \<^verbatim>\<open>range\<close> and
  extended with \<^verbatim>\<open>append\<close>, which treat a nil slice as the empty one, so the slice is a list
  and \<^verbatim>\<open>nil\<close> is \<^term>\<open>[]\<close>.
\<close>

type_synonym StringSlice = "string list"

text \<open>
  \<^verbatim>\<open>func (ss *StringSlice) Set(value string) error\<close>: the pointer receiver is updated in
  place, so the model returns the new slice together with the returned error.
\<close>

definition Set :: "StringSlice \<Rightarrow> string \<Rightarrow> StringSlice \<times> go_error option" where
  "Set ss v = (ss @ [v], None)"

subsection \<open>Arguments\<close>

record Arguments =
  AskVersion :: bool
  Recursive :: bool
  Verbose :: bool
  Quiet :: bool
  OutputPath :: string
  Includes :: StringSlice
  Plugins :: StringSlice
  Langs :: StringSlice
  IDL :: string

text \<open>The zero value of the struct, which is what the flags are bound to before parsing.\<close>

definition zero_Arguments :: Arguments where
  "zero_Arguments =
     \<lparr>AskVersion = False, Recursive = False, Verbose = False, Quiet = False,
      OutputPath = [], Includes = [], Plugins = [], Langs = [], IDL = []\<rparr>"

subsection \<open>Output\<close>

definition Output :: "Arguments \<Rightarrow> string \<Rightarrow> string" where
  "Output a lang = (if length (OutputPath a) > 0 then OutputPath a else ''./gen-'' @ lang)"

subsection \<open>UsedPlugins and Targets\<close>

text \<open>
  \<^verbatim>\<open>plugin.Option\<close>, \<^verbatim>\<open>plugin.Desc\<close> and \<^verbatim>\<open>generator.LangSpec\<close> are declared in other
  packages; the records have the fields that \<^verbatim>\<open>args.go\<close> reads and writes. The type of the
  option list of a descriptor is left a parameter: it is only copied.
\<close>

record plugin_Option =
  Name :: string
  Desc :: string

record 'o plugin_Desc =
  Name :: string
  Options :: 'o

record 'o generator_LangSpec =
  Language :: string
  Options :: 'o

text \<open>
  \<^verbatim>\<open>plugin.ParseCompactArguments\<close> is an external collaborator and a parameter of the model:
  a function from the specification string to either a failure or a descriptor. The Go
  function returns a pair \<^verbatim>\<open>(*Desc, error)\<close>; \<open>Inl err\<close> stands for a non-nil error and
  \<open>Inr desc\<close> for a nil error with the descriptor pointed to.
\<close>

type_synonym 'o parser = "string \<Rightarrow> go_error + 'o plugin_Desc"

text \<open>
  The loops of \<^verbatim>\<open>UsedPlugins\<close> and \<^verbatim>\<open>Targets\<close>. A slice is the list of its elements and
  the nil slice is \<open>[]\<close>; \<open>descs\<close> is the named result, nil on entry. The last argument and the
  last component of the result are a trace: the strings handed to the parser so far, in the
  order of the calls. The returned pair is the Go result \<^verbatim>\<open>(descs, err)\<close>.
\<close>

fun UsedPlugins_loop ::
  "'o parser \<Rightarrow> string list \<Rightarrow> 'o plugin_Desc list \<Rightarrow> string list \<Rightarrow>
   ('o plugin_Desc list \<times> go_error option) \<times> string list" where
  "UsedPlugins_loop parse [] descs calls = ((descs, None), calls)"
| "UsedPlugins_loop parse (str # rest) descs calls =
     (case parse str of
        Inl err \<Rightarrow> (([], Some err), calls @ [str])
      | Inr desc \<Rightarrow> UsedPlugins_loop parse rest (descs @ [desc]) (calls @ [str]))"

definition UsedPlugins ::
  "'o parser \<Rightarrow> Arguments \<Rightarrow> ('o plugin_Desc list \<times> go_error option) \<times> string list" where
  "UsedPlugins parse a = UsedPlugins_loop parse (Plugins a) [] []"

fun Targets_loop ::
  "'o parser \<Rightarrow> string list \<Rightarrow> 'o generator_LangSpec list \<Rightarrow> string list \<Rightarrow>
   ('o generator_LangSpec list \<times> go_error option) \<times> string list" where
  "Targets_loop parse [] specs calls = ((specs, None), calls)"
| "Targets_loop parse (lang # rest) specs calls =
     (case parse lang of
        Inl err \<Rightarrow> (([], Some err), calls @ [lang])
      | Inr desc \<Rightarrow>
          (let spec = \<lparr>Language = plugin_Desc.Name desc, Options = plugin_Desc.Options desc\<rparr>
           in Targets_loop parse rest (specs @ [spec]) (calls @ [lang])))"

definition Targets ::
  "'o parser \<Rightarrow> Arguments \<Rightarrow> ('o generator_LangSpec list \<times> go_error option) \<times> string list" where
  "Targets parse a = Targets_loop parse (Langs a) [] []"

text \<open>The projection of a descriptor that \<^verbatim>\<open>Targets\<close> stores.\<close>

definition LangSpec_of :: "'o plugin_Desc \<Rightarrow> 'o generator_LangSpec" where
  "LangSpec_of desc = \<lparr>Language = plugin_Desc.Name desc, Options = plugin_Desc.Options desc\<rparr>"

subsection \<open>MakeLogFunc\<close>

text \<open>
  \<^verbatim>\<open>strings.Join\<close> and \<^verbatim>\<open>fmt.Sprintln\<close> are the Go library functions; the operands of
  \<^verbatim>\<open>Println\<close> (values of type \<^verbatim>\<open>interface{}\<close>) are represented by their default formatting.
\<close>

fun Join :: "string list \<Rightarrow> string \<Rightarrow> string" where
  "Join [] sep = []"
| "Join [x] sep = x"
| "Join (x # y # ys) sep = x @ sep @ Join (y # ys) sep"

definition Sprintln :: "string list \<Rightarrow> string" where
  "Sprintln v = Join v '' '' @ nl"

text \<open>
  \<^verbatim>\<open>log.New(os.Stderr, prefix, 0).Println(v...)\<close>: with no flag set, a logger writes its
  prefix followed by the message, which here always ends in a newline.
\<close>

definition Logger_Println :: "string \<Rightarrow> string list \<Rightarrow> stream \<Rightarrow> stream" where
  "Logger_Println prefix v err = err @ [Text (prefix @ Sprintln v)]"

text \<open>\<^verbatim>\<open>backend.LogFunc\<close>: an emitter takes its operands and the stream, and returns the stream.\<close>

record LogFunc =
  Info :: "string list \<Rightarrow> stream \<Rightarrow> stream"
  Warn :: "string list \<Rightarrow> stream \<Rightarrow> stream"
  MultiWarn :: "string list \<Rightarrow> stream \<Rightarrow> stream"

text \<open>The body of the active \<^verbatim>\<open>MultiWarn\<close>: \<^verbatim>\<open>for _, w := range ws { logger.Println(w) }\<close>.\<close>

fun MultiWarn_loop :: "string \<Rightarrow> string list \<Rightarrow> stream \<Rightarrow> stream" where
  "MultiWarn_loop prefix [] err = err"
| "MultiWarn_loop prefix (w # ws) err = MultiWarn_loop prefix ws (Logger_Println prefix [w] err)"

definition MakeLogFunc :: "Arguments \<Rightarrow> LogFunc" where
  "MakeLogFunc a =
     \<lparr>Info = (if Verbose a \<and> \<not> Quiet a then Logger_Println ''[INFO] '' else (\<lambda>v err. err)),
      Warn = (if \<not> Quiet a then Logger_Println ''[WARN] '' else (\<lambda>v err. err)),
      MultiWarn = (if \<not> Quiet a then MultiWarn_loop ''[WARN] '' else (\<lambda>ws err. err))\<rparr>"

subsection \<open>align\<close>

text \<open>
  \<^verbatim>\<open>strings.Repeat\<close> panics on a negative count, and indexing a slice panics out of range.
\<close>

definition Repeat :: "string \<Rightarrow> int \<Rightarrow> string outcome" where
  "Repeat s count =
     (if count < 0 then Panic ''strings: negative Repeat count''
      else Return (concat (replicate (nat count) s)))"

definition index :: "'a list \<Rightarrow> nat \<Rightarrow> 'a outcome" where
  "index xs i = (if i < length xs then Return (xs ! i) else Panic ''index out of range'')"

text \<open>Sequencing of calls that may panic or exit.\<close>

fun bind :: "'a outcome \<Rightarrow> ('a \<Rightarrow> 'b outcome) \<Rightarrow> 'b outcome" where
  "bind (Return x) f = f x"
| "bind (Exit n) f = Exit n"
| "bind (Panic p) f = Panic p"

text \<open>
  The first loop of \<^verbatim>\<open>align\<close>, over \<open>opts\<close>, with the variables \<open>names\<close>, \<open>descs\<close> and \<open>max\<close>.
\<close>

fun align_collect ::
  "plugin_Option list \<Rightarrow> string list \<Rightarrow> string list \<Rightarrow> nat \<Rightarrow> string list \<times> string list \<times> nat"
  where
  "align_collect [] names descs mx = (names, descs, mx)"
| "align_collect (opt # opts) names descs mx =
     align_collect opts (names @ [plugin_Option.Name opt]) (descs @ [plugin_Option.Desc opt])
       (if mx \<le> length (plugin_Option.Name opt) then length (plugin_Option.Name opt) else mx)"

text \<open>
  The second loop, \<^verbatim>\<open>for i := range names\<close>, over the indices of \<open>names\<close>, with the variable
  \<open>ss\<close>. \<open>rest\<close> is a Go \<^verbatim>\<open>int\<close>.
\<close>

fun align_rows ::
  "nat list \<Rightarrow> string list \<Rightarrow> string list \<Rightarrow> nat \<Rightarrow> string list \<Rightarrow> string list outcome" where
  "align_rows [] names descs mx ss = Return ss"
| "align_rows (i # is) names descs mx ss =
     bind (index names i) (\<lambda>name.
     bind (Repeat '' '' (2 + int mx - int (length name))) (\<lambda>pad.
     bind (index descs i) (\<lambda>desc.
     align_rows is names descs mx (ss @ [''    '' @ name @ '':'' @ pad @ desc]))))"

text \<open>The slice \<open>ss\<close> of rendered rows at the end of \<^verbatim>\<open>align\<close>, before it is joined.\<close>

definition align_ss :: "plugin_Option list \<Rightarrow> string list outcome" where
  "align_ss opts =
     (case align_collect opts [] [] 0 of
        (names, descs, mx) \<Rightarrow> align_rows [0..<length names] names descs mx [])"

definition align :: "plugin_Option list \<Rightarrow> string outcome" where
  "align opts = bind (align_ss opts) (\<lambda>ss. Return (Join ss nl))"

subsection \<open>help (named \<open>help'\<close> here)\<close>

text \<open>
  The package-level state that \<^verbatim>\<open>args.go\<close> reads and that is set elsewhere: the argument
  vector of the process, the version string, and the backends registered with the generator
  \<open>g\<close>. A backend is given by what its methods \<open>Name\<close>, \<open>Lang\<close> and \<open>Options\<close> return.
\<close>

record Backend =
  Name :: string
  Lang :: string
  Options :: "plugin_Option list"

record globals =
  os_Args :: "string list"
  Version :: string
  AllBackend :: "Backend list"

definition usage :: string where
  \<open>usage =
    ''Usage: thriftgo [options] file'' @ nl @
    ''Options:'' @ nl @
    ''  --version           Print the compiler version and exit.'' @ nl @
    ''  -h, --help          Print help message and exit.'' @ nl @
    ''  -i, --include dir   Add a search path for includes.'' @ nl @
    ''  -o, --out dir'' @ [CHR 0x09] @
      ''      Set the ouput location for generated files. (default: ./gen-*)'' @ nl @
    ''  -r, --recurse       Generate codes for includes recursively.'' @ nl @
    ''  -v, --verbose       Output detail logs.'' @ nl @
    ''  -q, --quiet         Suppress all warnings and informatic logs.'' @ nl @
    ''  -g, --gen STR       Specify the target langauge.'' @ nl @
    ''                      STR has the form language[:key1=val1[,key2[,key3=val3]]].'' @ nl @
    ''                      Keys and values are options passed to the backend.'' @ nl @
    ''                      Many options will not require values. Boolean options accept'' @ nl @
    ''                      "false", "true" and "" (emtpy is treated as "true").'' @ nl @
    ''  -p, --plugin STR    Specify an external plugin to invoke.'' @ nl @
    ''                      STR has the form plugin[=path][:key1=val1[,key2[,key3=val3]]].'' @ nl @
    nl @
    ''Available generators (and options):'' @ nl\<close>

text \<open>
  The builtin \<^verbatim>\<open>println\<close> writes its operands separated by spaces and a newline. The loop
  of \<^verbatim>\<open>help\<close> over the backends:
\<close>

fun help_backends :: "Backend list \<Rightarrow> stream \<Rightarrow> unit outcome \<times> stream" where
  "help_backends [] err = (Return (), err)"
| "help_backends (b # bs) err =
     (let err1 = err @ [Text (''  '' @ Backend.Name b @ '' ('' @ Backend.Lang b @ ''):'' @ nl)]
      in case align (Backend.Options b) of
           Return s \<Rightarrow> help_backends bs (err1 @ [Text (s @ nl)])
         | Exit n \<Rightarrow> (Exit n, err1)
         | Panic p \<Rightarrow> (Panic p, err1))"

definition help' :: "globals \<Rightarrow> stream \<Rightarrow> unit outcome \<times> stream" where
  "help' G err =
     (let err1 = err @ [Text (''Version: '' @ Version G @ nl)];
          err2 = err1 @ [Text (usage @ nl)]
      in case help_backends (AllBackend G) err2 of
           (Return u, err3) \<Rightarrow> (Exit 2, err3 @ [Text nl])
         | (Exit n, err3) \<Rightarrow> (Exit n, err3)
         | (Panic p, err3) \<Rightarrow> (Panic p, err3))"

subsection \<open>The flag set of BuildFlags\<close>

text \<open>
  A flag registered with \<^verbatim>\<open>BoolVar\<close>, \<^verbatim>\<open>StringVar\<close> or \<^verbatim>\<open>Var\<close> holds a pointer to a field of
  the \<^verbatim>\<open>Arguments\<close>; the pointer is modelled by the name of the field.
\<close>

datatype bool_field = AskVersion_field | Recursive_field | Verbose_field | Quiet_field

datatype string_field = OutputPath_field

datatype slice_field = Includes_field | Langs_field | Plugins_field

datatype Value = boolValue bool_field | stringValue string_field | sliceValue slice_field

record FlagSet =
  name :: string
  formal :: "(string \<times> Value) list"

text \<open>The flags that \<^verbatim>\<open>BuildFlags\<close> registers, in the order of their registration.\<close>

definition registered :: "(string \<times> Value) list" where
  "registered =
     [(''version'', boolValue AskVersion_field),
      (''r'', boolValue Recursive_field), (''recurse'', boolValue Recursive_field),
      (''v'', boolValue Verbose_field), (''verbose'', boolValue Verbose_field),
      (''q'', boolValue Quiet_field), (''quiet'', boolValue Quiet_field),
      (''o'', stringValue OutputPath_field), (''out'', stringValue OutputPath_field),
      (''i'', sliceValue Includes_field), (''include'', sliceValue Includes_field),
      (''g'', sliceValue Langs_field), (''gen'', sliceValue Langs_field),
      (''p'', sliceValue Plugins_field), (''plugin'', sliceValue Plugins_field)]"

text \<open>
  \<^verbatim>\<open>BuildFlags\<close>. \<^verbatim>\<open>BoolVar\<close> and \<^verbatim>\<open>StringVar\<close> store the default value in the field they bind,
  \<^verbatim>\<open>Var\<close> leaves the bound slice as it is. \<^verbatim>\<open>os.Args[0]\<close> panics when the process has no
  argument vector at all. The \<open>Usage\<close> function of the set is \<open>help\<close>.
\<close>

definition BuildFlags :: "globals \<Rightarrow> Arguments \<Rightarrow> (Arguments \<times> FlagSet) outcome" where
  "BuildFlags G a =
     (case os_Args G of
        [] \<Rightarrow> Panic ''index out of range: os.Args[0]''
      | arg0 # _ \<Rightarrow>
       Return
         (a\<lparr>AskVersion := False, Recursive := False, Verbose := False, Quiet := False,
            OutputPath := []\<rparr>,
          \<lparr>name = arg0, formal = registered\<rparr>))"

subsection \<open>The standard flag package\<close>

text \<open>
  \<^verbatim>\<open>FlagSet.Parse\<close> of the Go standard library, for a set with the error handling
  \<^verbatim>\<open>ContinueOnError\<close> whose \<open>Usage\<close> is \<open>help\<close>, following the library's documented command
  line syntax and its implementation. \<open>ParseBool\<close> is \<^verbatim>\<open>strconv.ParseBool\<close>.
\<close>

definition ParseBool :: "string \<Rightarrow> bool option" where
  "ParseBool str =
     (if str \<in> set [''1'', ''t'', ''T'', ''TRUE'', ''true'', ''True''] then Some True
      else if str \<in> set [''0'', ''f'', ''F'', ''FALSE'', ''false'', ''False''] then Some False
      else None)"

fun store_bool :: "bool_field \<Rightarrow> bool \<Rightarrow> Arguments \<Rightarrow> Arguments" where
  "store_bool AskVersion_field b a = a\<lparr>AskVersion := b\<rparr>"
| "store_bool Recursive_field b a = a\<lparr>Recursive := b\<rparr>"
| "store_bool Verbose_field b a = a\<lparr>Verbose := b\<rparr>"
| "store_bool Quiet_field b a = a\<lparr>Quiet := b\<rparr>"

fun load_slice :: "slice_field \<Rightarrow> Arguments \<Rightarrow> StringSlice" where
  "load_slice Includes_field a = Includes a"
| "load_slice Langs_field a = Langs a"
| "load_slice Plugins_field a = Plugins a"

fun store_slice :: "slice_field \<Rightarrow> StringSlice \<Rightarrow> Arguments \<Rightarrow> Arguments" where
  "store_slice Includes_field ss a = a\<lparr>Includes := ss\<rparr>"
| "store_slice Langs_field ss a = a\<lparr>Langs := ss\<rparr>"
| "store_slice Plugins_field ss a = a\<lparr>Plugins := ss\<rparr>"

text \<open>
  The method \<open>Set\<close> of a flag value: of the library's \<open>boolValue\<close> and \<open>stringValue\<close>, and of
  \<open>StringSlice\<close> above.
\<close>

fun Value_Set :: "Value \<Rightarrow> string \<Rightarrow> Arguments \<Rightarrow> Arguments \<times> go_error option" where
  "Value_Set (boolValue c) s a =
     (case ParseBool s of
        Some b \<Rightarrow> (store_bool c b a, None)
      | None \<Rightarrow> (store_bool c False a, Some (Error ''parse error'')))"
| "Value_Set (stringValue OutputPath_field) s a = (a\<lparr>OutputPath := s\<rparr>, None)"
| "Value_Set (sliceValue c) s a =
     (case Set (load_slice c a) s of (ss, e) \<Rightarrow> (store_slice c ss a, e))"

text \<open>
  \<open>parseOne\<close> looks at the first of the remaining arguments. It has seen a flag and goes on
  with the updated fields and the arguments left (\<open>Seen\<close>), or the flags are over and the
  arguments left are the positional ones (\<open>Done\<close>), or it fails with an error that
  \<open>failf\<close> reports (\<open>Failed\<close>), or help was asked for with \<open>-h\<close> or \<open>-help\<close> (\<open>Help\<close>).
\<close>

datatype step = Seen Arguments "string list" | Done "string list" | Failed go_error | Help

definition ErrHelp :: go_error where
  "ErrHelp = Error ''flag: help requested''"

text \<open>A flag \<open>name=value\<close> is cut at the first \<open>=\<close> after the first character of the name.\<close>

definition cut_value :: "string \<Rightarrow> string \<times> string option" where
  "cut_value nm =
     (case nm of
        [] \<Rightarrow> ([], None)
      | c # cs \<Rightarrow>
          (if CHR ''='' \<in> set cs
           then (c # takeWhile (\<lambda>x. x \<noteq> CHR ''='') cs,
                 Some (tl (dropWhile (\<lambda>x. x \<noteq> CHR ''='') cs)))
           else (nm, None)))"

definition set_flag ::
  "string \<Rightarrow> Value \<Rightarrow> string option \<Rightarrow> Arguments \<Rightarrow> string list \<Rightarrow> step" where
  "set_flag nm v given a args =
     (case v of
        boolValue c \<Rightarrow>
          (case given of
             Some val \<Rightarrow>
               (case Value_Set v val a of
                  (a', None) \<Rightarrow> Seen a' args
                | (a', Some e) \<Rightarrow>
                    Failed (Errorf ''invalid boolean value %q for -%s: %v'' [Str val, Str nm, Err e]))
           | None \<Rightarrow>
               (case Value_Set v ''true'' a of
                  (a', None) \<Rightarrow> Seen a' args
                | (a', Some e) \<Rightarrow>
                    Failed (Errorf ''invalid boolean flag %s: %v'' [Str nm, Err e])))
      | _ \<Rightarrow>
          (case (given, args) of
             (None, []) \<Rightarrow> Failed (Errorf ''flag needs an argument: -%s'' [Str nm])
           | (None, val # args') \<Rightarrow>
               (case Value_Set v val a of
                  (a', None) \<Rightarrow> Seen a' args'
                | (a', Some e) \<Rightarrow> Failed (Errorf ''invalid value %q for flag -%s: %v'' [Str val, Str nm, Err e]))
           | (Some val, _) \<Rightarrow>
               (case Value_Set v val a of
                  (a', None) \<Rightarrow> Seen a' args
                | (a', Some e) \<Rightarrow> Failed (Errorf ''invalid value %q for flag -%s: %v'' [Str val, Str nm, Err e]))))"

definition lookup_flag :: "FlagSet \<Rightarrow> Arguments \<Rightarrow> string \<Rightarrow> string \<Rightarrow> string list \<Rightarrow> step" where
  "lookup_flag f a s nm0 args =
     (if nm0 = [] \<or> hd nm0 = CHR ''-'' \<or> hd nm0 = CHR ''=''
      then Failed (Errorf ''bad flag syntax: %s'' [Str s])
      else
        (case cut_value nm0 of
           (nm, given) \<Rightarrow>
             (case map_of (formal f) nm of
                None \<Rightarrow>
                  (if nm = ''help'' \<or> nm = ''h'' then Help
                   else Failed (Errorf ''flag provided but not defined: -%s'' [Str nm]))
              | Some v \<Rightarrow> set_flag nm v given a args)))"

fun parseOne :: "FlagSet \<Rightarrow> Arguments \<Rightarrow> string list \<Rightarrow> step" where
  "parseOne f a [] = Done []"
| "parseOne f a (s # args) =
     (case s of
        c0 # c1 # cs \<Rightarrow>
          (if c0 \<noteq> CHR ''-'' then Done (s # args)
           else if c1 = CHR ''-'' then
             (if cs = [] then Done args else lookup_flag f a s cs args)
           else lookup_flag f a s (c1 # cs) args)
      | _ \<Rightarrow> Done (s # args))"

text \<open>
  The loop of \<^verbatim>\<open>FlagSet.Parse\<close>. A failure is printed by \<open>failf\<close>, and in both failing cases
  the \<open>Usage\<close> function, \<open>help\<close>, is called before the error is returned. The result is the
  returned error and, when it is nil, the updated \<open>Arguments\<close> and what \<^verbatim>\<open>f.Args()\<close> returns
  afterwards; with a non-nil error \<open>Parse\<close> reads neither of the two.
\<close>

function FlagSet_Parse ::
  "globals \<Rightarrow> FlagSet \<Rightarrow> Arguments \<Rightarrow> string list \<Rightarrow> stream \<Rightarrow>
   (Arguments \<times> string list \<times> go_error option) outcome \<times> stream" where
  "FlagSet_Parse G f a args err =
     (case parseOne f a args of
        Seen a' args' \<Rightarrow> FlagSet_Parse G f a' args' err
      | Done rest \<Rightarrow> (Return (a, rest, None), err)
      | Failed e \<Rightarrow>
          (case help' G (err @ [ErrorLine e]) of
             (Return u, err') \<Rightarrow> (Return (a, args, Some e), err')
           | (Exit n, err') \<Rightarrow> (Exit n, err')
           | (Panic p, err') \<Rightarrow> (Panic p, err'))
      | Help \<Rightarrow>
          (case help' G err of
             (Return u, err') \<Rightarrow> (Return (a, args, Some ErrHelp), err')
           | (Exit n, err') \<Rightarrow> (Exit n, err')
           | (Panic p, err') \<Rightarrow> (Panic p, err')))"
  by pat_completeness auto
termination
proof (relation "measure (\<lambda>(G, f, a, args, err). length args)")
  show "wf (measure (\<lambda>(G, f, a, args, err). length args))"
    by simp
next
  fix G :: globals and f a args and err :: stream and a' args'
  assume "parseOne f a args = Seen a' args'"
  then have "length args' < length args"
    by (cases args)
      (auto simp: lookup_flag_def set_flag_def
        split: list.splits if_splits prod.splits option.splits Value.splits)
  then show "((G, f, a', args', err), (G, f, a, args, err))
      \<in> measure (\<lambda>(G, f, a, args, err). length args)"
    by simp
qed

declare FlagSet_Parse.simps [simp del]

subsection \<open>Parse\<close>

text \<open>The builtin \<^verbatim>\<open>println\<close> prints an \<^verbatim>\<open>int\<close> in decimal; \<open>len\<close> is never negative.\<close>

definition digit :: "nat \<Rightarrow> char" where
  "digit d = ''0123456789'' ! (d mod 10)"

function itoa :: "nat \<Rightarrow> string" where
  "itoa n = (if n < 10 then [digit n] else itoa (n div 10) @ [digit n])"
  by pat_completeness auto
termination
  by (relation "measure id") auto

declare itoa.simps [simp del]

text \<open>
  \<^verbatim>\<open>Parse\<close>. The flags are built first, then \<^verbatim>\<open>argv[1:]\<close> is evaluated, which panics on an
  empty \<open>argv\<close>. On a normal return the result is the updated \<open>Arguments\<close>.
\<close>

definition Parse :: "globals \<Rightarrow> Arguments \<Rightarrow> string list \<Rightarrow> stream \<Rightarrow> Arguments outcome \<times> stream" where
  "Parse G a argv err =
     (case BuildFlags G a of
        Panic p \<Rightarrow> (Panic p, err)
      | Exit n \<Rightarrow> (Exit n, err)
      | Return (a0, f) \<Rightarrow>
          (case argv of
             [] \<Rightarrow> (Panic ''slice bounds out of range: argv[1:]'', err)
           | arg0 # args \<Rightarrow>
               (case FlagSet_Parse G f a0 args err of
                  (Panic p, err1) \<Rightarrow> (Panic p, err1)
                | (Exit n, err1) \<Rightarrow> (Exit n, err1)
                | (Return (a1, rest, Some e), err1) \<Rightarrow> (Exit 2, err1 @ [ErrorValue e])
                | (Return (a1, rest, None), err1) \<Rightarrow>
                    (if AskVersion a1
                     then (Exit 0, err1 @ [Text (''thriftgo '' @ Version G @ nl)])
                     else if length rest \<noteq> 1
                     then (Exit 2,
                           err1 @ [Text (''require exactly 1 argument for the IDL parameter, got: '' @
                                         itoa (length rest) @ nl)])
                     else (case rest of
                             [] \<Rightarrow> (Panic ''index out of range: rest[0]'', err1)
                           | idl # _ \<Rightarrow> (Return (a1\<lparr>IDL := idl\<rparr>), err1))))))"

subsection \<open>Notions used to state the properties of align\<close>

text \<open>The greatest length of an option name in a list of options (0 for the empty list).\<close>

definition max_name_length :: "plugin_Option list \<Rightarrow> nat" where
  "max_name_length opts = fold (\<lambda>opt m. max m (length (plugin_Option.Name opt))) opts 0"

text \<open>
  \<open>description_at k opts\<close>: \<open>align\<close> renders one row for each option of \<open>opts\<close>, in order,
  and in every row the description of the option starts at offset \<open>k\<close> from the start of
  the row (counted from 0) and runs to its end, after the name, a colon and spaces only.
\<close>

definition row_at :: "nat \<Rightarrow> string \<Rightarrow> plugin_Option \<Rightarrow> bool" where
  "row_at k row opt \<longleftrightarrow>
     k \<le> length row \<and>
     drop k row = plugin_Option.Desc opt \<and>
     take k row =
       ''    '' @ plugin_Option.Name opt @ '':'' @
       replicate (k - 5 - length (plugin_Option.Name opt)) (CHR '' '')"

definition description_at :: "nat \<Rightarrow> plugin_Option list \<Rightarrow> bool" where
  "description_at k opts \<longleftrightarrow>
     (case align_ss opts of
        Return ss \<Rightarrow> list_all2 (row_at k) ss opts
      | Exit n \<Rightarrow> False
      | Panic p \<Rightarrow> False)"

text \<open>The row that \<open>align\<close> renders for an option when the greatest name length is \<open>mx\<close>.\<close>

definition row :: "nat \<Rightarrow> plugin_Option \<Rightarrow> string" where
  "row mx opt = ''    '' @ plugin_Option.Name opt @ '':'' @
     replicate (2 + mx - length (plugin_Option.Name opt)) (CHR '' '') @ plugin_Option.Desc opt"

subsection \<open>Notions used to state the properties of Parse\<close>

text \<open>The number that a string of decimal digits denotes.\<close>

definition decimal :: "string \<Rightarrow> nat" where
  "decimal ds = foldl (\<lambda>n c. 10 * n + (of_char c - 48)) 0 ds"

text \<open>The package-level state used in the examples: no backend is registered.\<close>

definition example_globals :: globals where
  "example_globals = \<lparr>os_Args = [''thriftgo''], Version = ''0.1.0'', AllBackend = []\<rparr>"

text \<open>The options of the examples: the names \<open>a\<close> and \<open>bb\<close>.\<close>

definition example_options :: "plugin_Option list" where
  "example_options =
     [\<lparr>plugin_Option.Name = ''a'', Desc = ''x''\<rparr>, \<lparr>plugin_Option.Name = ''bb'', Desc = ''y''\<rparr>]"

text \<open>
  A parser for the examples: it rejects the string \<open>badspec\<close> and accepts every other string
  as a name without options.
\<close>

definition example_parser :: "unit parser" where
  "example_parser str =
     (if str = ''badspec'' then Inl (Error ''bad specification'')
      else Inr \<lparr>plugin_Desc.Name = str, Options = ()\<rparr>)"

section \<open>Properties\<close>

subsection \<open>Output path resolution\<close>

text \<open>
  C3. For every configuration and every language string, \<open>Output\<close> returns \<open>OutputPath\<close>
  verbatim whenever \<open>OutputPath\<close> is non-empty, whatever the language, and returns
  \<open>./gen-\<close> followed by the language whenever \<open>OutputPath\<close> is empty. The result is a function
  of the configuration and the language alone, so a call for one language has no influence on
  a later call for another one.
\<close>

theorem Output_spec:
  "(OutputPath a \<noteq> [] \<longrightarrow> (\<forall>lang. Output a lang = OutputPath a)) \<and>
   (OutputPath a = [] \<longrightarrow> (\<forall>lang. Output a lang = ''./gen-'' @ lang))"
  by (simp add: Output_def)

theorem Output_spec_witness:
  "Output (zero_Arguments\<lparr>OutputPath := ''out''\<rparr>) ''go'' = ''out'' \<and>
   Output (zero_Arguments\<lparr>OutputPath := ''out''\<rparr>) ''rust'' = ''out'' \<and>
   Output zero_Arguments ''go'' = ''./gen-go'' \<and>
   Output zero_Arguments ''rust'' = ''./gen-rust''"
  using Output_spec [of "zero_Arguments\<lparr>OutputPath := ''out''\<rparr>"] Output_spec [of zero_Arguments]
  by (simp add: zero_Arguments_def)

subsection \<open>Resolving compact specifications\<close>

text \<open>
  The loops with any accumulated list and trace. If every entry parses, the descriptors are
  appended in order and every entry was handed to the parser; if the entry after a
  successful prefix fails, the result is the failure with a nil list, and the trace ends at
  the failing entry.
\<close>

lemma UsedPlugins_loop_ok:
  "map parse xs = map Inr ds \<Longrightarrow>
   UsedPlugins_loop parse xs descs calls = ((descs @ ds, None), calls @ xs)"
proof (induction xs arbitrary: ds descs calls)
  case Nil
  then show ?case by simp
next
  case (Cons x xs)
  then obtain d ds' where ds: "ds = d # ds'" "parse x = Inr d" "map parse xs = map Inr ds'"
    by (cases ds) auto
  with Cons.IH [of ds' "descs @ [d]" "calls @ [x]"] show ?case by simp
qed

lemma UsedPlugins_loop_fail:
  "map parse pre = map Inr ds \<Longrightarrow> parse bad = Inl e \<Longrightarrow>
   UsedPlugins_loop parse (pre @ bad # post) descs calls = (([], Some e), calls @ pre @ [bad])"
proof (induction pre arbitrary: ds descs calls)
  case Nil
  then show ?case by simp
next
  case (Cons x xs)
  then obtain d ds' where ds: "ds = d # ds'" "parse x = Inr d" "map parse xs = map Inr ds'"
    by (cases ds) auto
  with Cons.IH [of ds' "descs @ [d]" "calls @ [x]"] Cons.prems(2) show ?case by simp
qed

lemma Targets_loop_ok:
  "map parse xs = map Inr ds \<Longrightarrow>
   Targets_loop parse xs specs calls = ((specs @ map LangSpec_of ds, None), calls @ xs)"
proof (induction xs arbitrary: ds specs calls)
  case Nil
  then show ?case by simp
next
  case (Cons x xs)
  then obtain d ds' where ds: "ds = d # ds'" "parse x = Inr d" "map parse xs = map Inr ds'"
    by (cases ds) auto
  with Cons.IH [of ds' "specs @ [LangSpec_of d]" "calls @ [x]"] show ?case
    by (simp add: LangSpec_of_def)
qed

lemma Targets_loop_fail:
  "map parse pre = map Inr ds \<Longrightarrow> parse bad = Inl e \<Longrightarrow>
   Targets_loop parse (pre @ bad # post) specs calls = (([], Some e), calls @ pre @ [bad])"
proof (induction pre arbitrary: ds specs calls)
  case Nil
  then show ?case by simp
next
  case (Cons x xs)
  then obtain d ds' where ds: "ds = d # ds'" "parse x = Inr d" "map parse xs = map Inr ds'"
    by (cases ds) auto
  with Cons.IH [of ds' "specs @ [LangSpec_of d]" "calls @ [x]"] Cons.prems(2) show ?case
    by (simp add: LangSpec_of_def)
qed

text \<open>
  C2. For every \<open>Plugins\<close> (resp. \<open>Langs\<close>) sequence, \<open>UsedPlugins\<close> (resp. \<open>Targets\<close>) calls
  the parser once per entry, in order. If every call succeeds (the entries parse to \<open>ds\<close>),
  the result is the whole list of descriptors in the original order with a nil error, and
  the trace of calls is the sequence itself. If the entries \<open>pre\<close> succeed and the next entry
  \<open>bad\<close> fails with \<open>e\<close>, the result is \<open>e\<close> with the nil list, not the descriptors of \<open>pre\<close>,
  and the trace is \<open>pre\<close> followed by \<open>bad\<close>: no entry of \<open>post\<close> is parsed.
\<close>

theorem resolver_all_or_nothing:
  "(map parse (Plugins a) = map Inr ds \<longrightarrow>
      UsedPlugins parse a = ((ds, None), Plugins a)) \<and>
   (Plugins a = pre @ bad # post \<and> map parse pre = map Inr ds \<and> parse bad = Inl e \<longrightarrow>
      UsedPlugins parse a = (([], Some e), pre @ [bad])) \<and>
   (map parse (Langs a) = map Inr ds \<longrightarrow>
      Targets parse a = ((map LangSpec_of ds, None), Langs a)) \<and>
   (Langs a = pre @ bad # post \<and> map parse pre = map Inr ds \<and> parse bad = Inl e \<longrightarrow>
      Targets parse a = (([], Some e), pre @ [bad]))"
  by (simp add: UsedPlugins_def Targets_def UsedPlugins_loop_ok UsedPlugins_loop_fail
      Targets_loop_ok Targets_loop_fail)

theorem resolver_all_or_nothing_witness:
  "UsedPlugins example_parser (zero_Arguments\<lparr>Plugins := [''p1'', ''badspec'', ''p3'']\<rparr>) =
     (([], Some (Error ''bad specification'')), [''p1'', ''badspec'']) \<and>
   UsedPlugins example_parser (zero_Arguments\<lparr>Plugins := [''p1'', ''p3'']\<rparr>) =
     (([\<lparr>plugin_Desc.Name = ''p1'', Options = ()\<rparr>, \<lparr>plugin_Desc.Name = ''p3'', Options = ()\<rparr>], None), [''p1'', ''p3'']) \<and>
   Targets example_parser (zero_Arguments\<lparr>Langs := [''go'', ''badspec'', ''rust'']\<rparr>) =
     (([], Some (Error ''bad specification'')), [''go'', ''badspec'']) \<and>
   Targets example_parser (zero_Arguments\<lparr>Langs := [''go'', ''rust'']\<rparr>) =
     (([\<lparr>Language = ''go'', Options = ()\<rparr>, \<lparr>Language = ''rust'', Options = ()\<rparr>], None),
      [''go'', ''rust''])"
  using
    resolver_all_or_nothing [of example_parser
      "zero_Arguments\<lparr>Plugins := [''p1'', ''badspec'', ''p3'']\<rparr>"
      "[\<lparr>plugin_Desc.Name = ''p1'', Options = ()\<rparr>]" "[''p1'']" "''badspec''" "[''p3'']"
      "Error ''bad specification''"]
    resolver_all_or_nothing [of example_parser
      "zero_Arguments\<lparr>Plugins := [''p1'', ''p3'']\<rparr>"
      "[\<lparr>plugin_Desc.Name = ''p1'', Options = ()\<rparr>, \<lparr>plugin_Desc.Name = ''p3'', Options = ()\<rparr>]"]
    resolver_all_or_nothing [of example_parser
      "zero_Arguments\<lparr>Langs := [''go'', ''badspec'', ''rust'']\<rparr>"
      "[\<lparr>plugin_Desc.Name = ''go'', Options = ()\<rparr>]" "[''go'']" "''badspec''" "[''rust'']"
      "Error ''bad specification''"]
    resolver_all_or_nothing [of example_parser
      "zero_Arguments\<lparr>Langs := [''go'', ''rust'']\<rparr>"
      "[\<lparr>plugin_Desc.Name = ''go'', Options = ()\<rparr>, \<lparr>plugin_Desc.Name = ''rust'', Options = ()\<rparr>]"]
  by (simp add: example_parser_def zero_Arguments_def LangSpec_of_def)

text \<open>
  C9. When \<open>Plugins\<close> (resp. \<open>Langs\<close>) is empty, \<open>UsedPlugins\<close> (resp. \<open>Targets\<close>) returns the
  nil list and the nil error, and the trace of parser calls is empty.
\<close>

theorem resolver_empty:
  "(Plugins a = [] \<longrightarrow> UsedPlugins parse a = (([], None), [])) \<and>
   (Langs a = [] \<longrightarrow> Targets parse a = (([], None), []))"
  by (simp add: UsedPlugins_def Targets_def)

theorem resolver_empty_witness:
  "UsedPlugins example_parser zero_Arguments = (([], None), []) \<and>
   Targets example_parser zero_Arguments = (([], None), [])"
  using resolver_empty [of zero_Arguments example_parser]
  by (simp add: zero_Arguments_def)

subsection \<open>Logging policy\<close>

lemma MultiWarn_loop_eq:
  "MultiWarn_loop prefix ws err = err @ map (\<lambda>w. Text (prefix @ w @ nl)) ws"
  by (induction ws arbitrary: err) (simp_all add: Logger_Println_def Sprintln_def)

text \<open>
  C4. For every \<open>(Verbose, Quiet)\<close> pair: the Info emitter of \<open>MakeLogFunc\<close> leaves the stream
  unchanged on every call exactly when \<open>Verbose \<and> \<not> Quiet\<close> is false, and the Warn and
  multi-Warn emitters do so exactly when \<open>Quiet\<close> is true; so \<open>Quiet\<close> silences all three
  whatever \<open>Verbose\<close> is. An active Info or Warn emitter appends one line, the tag \<open>[INFO] \<close>
  or \<open>[WARN] \<close> followed by the operands, and the active multi-Warn emitter appends one
  tagged line for each message.
\<close>

theorem MakeLogFunc_policy:
  "((\<forall>v err. Info (MakeLogFunc a) v err = err) \<longleftrightarrow> \<not> (Verbose a \<and> \<not> Quiet a)) \<and>
   ((\<forall>v err. Warn (MakeLogFunc a) v err = err) \<longleftrightarrow> Quiet a) \<and>
   ((\<forall>ws err. MultiWarn (MakeLogFunc a) ws err = err) \<longleftrightarrow> Quiet a) \<and>
   (Verbose a \<and> \<not> Quiet a \<longrightarrow>
      Info (MakeLogFunc a) v err = err @ [Text (''[INFO] '' @ Join v '' '' @ nl)]) \<and>
   (\<not> Quiet a \<longrightarrow>
      Warn (MakeLogFunc a) v err = err @ [Text (''[WARN] '' @ Join v '' '' @ nl)] \<and>
      MultiWarn (MakeLogFunc a) ws err = err @ map (\<lambda>w. Text (''[WARN] '' @ w @ nl)) ws)"
proof -
  have "\<not> (\<forall>ws err. err @ map (\<lambda>w. Text (''[WARN] '' @ w @ nl)) ws = err)"
  proof
    assume "\<forall>ws err. err @ map (\<lambda>w. Text (''[WARN] '' @ w @ nl)) ws = err"
    then have "[] @ map (\<lambda>w. Text (''[WARN] '' @ w @ nl)) [''''] = []" by blast
    then show False by simp
  qed
  then show ?thesis
    by (simp add: MakeLogFunc_def Logger_Println_def Sprintln_def MultiWarn_loop_eq)
qed

theorem MakeLogFunc_policy_witness:
  "Info (MakeLogFunc (zero_Arguments\<lparr>Verbose := True, Quiet := True\<rparr>)) [''a'', ''b''] [] = [] \<and>
   MultiWarn (MakeLogFunc (zero_Arguments\<lparr>Verbose := True, Quiet := True\<rparr>)) [''w1'', ''w2''] [] = [] \<and>
   Info (MakeLogFunc (zero_Arguments\<lparr>Verbose := True\<rparr>)) [''a'', ''b''] [] = [Text (''[INFO] a b'' @ nl)] \<and>
   Warn (MakeLogFunc (zero_Arguments\<lparr>Verbose := True\<rparr>)) [''a'', ''b''] [] = [Text (''[WARN] a b'' @ nl)] \<and>
   Info (MakeLogFunc zero_Arguments) [''a'', ''b''] [] = [] \<and>
   Warn (MakeLogFunc zero_Arguments) [''a'', ''b''] [] = [Text (''[WARN] a b'' @ nl)]"
  using MakeLogFunc_policy [of "zero_Arguments\<lparr>Verbose := True, Quiet := True\<rparr>"]
    MakeLogFunc_policy [of "zero_Arguments\<lparr>Verbose := True\<rparr>" "[''a'', ''b'']" "[]"]
    MakeLogFunc_policy [of zero_Arguments "[''a'', ''b'']" "[]"]
  by (simp add: zero_Arguments_def)

text \<open>
  C8. For every sequence of warning messages, the multi-Warn emitter, when \<open>Quiet\<close> is false,
  appends to the stream one line for each message, in the order of the sequence, each line
  being the tag, the message and a newline; when \<open>Quiet\<close> is true its body is empty, and the
  stream is unchanged whatever the sequence is.
\<close>

theorem MultiWarn_batched:
  "(\<not> Quiet a \<longrightarrow>
      MultiWarn (MakeLogFunc a) ws err = err @ map (\<lambda>w. Text (''[WARN] '' @ w @ nl)) ws) \<and>
   (Quiet a \<longrightarrow> MultiWarn (MakeLogFunc a) ws err = err)"
  by (simp add: MakeLogFunc_def MultiWarn_loop_eq)

theorem MultiWarn_batched_witness:
  "MultiWarn (MakeLogFunc zero_Arguments) [''first'', ''second'', ''first''] [Text ''x''] =
     [Text ''x'', Text (''[WARN] first'' @ nl), Text (''[WARN] second'' @ nl),
      Text (''[WARN] first'' @ nl)] \<and>
   MultiWarn (MakeLogFunc (zero_Arguments\<lparr>Quiet := True\<rparr>)) [''first'', ''second''] [Text ''x''] =
     [Text ''x'']"
  using MultiWarn_batched [of zero_Arguments "[''first'', ''second'', ''first'']" "[Text ''x'']"]
    MultiWarn_batched [of "zero_Arguments\<lparr>Quiet := True\<rparr>" "[''first'', ''second'']" "[Text ''x'']"]
  by (simp add: zero_Arguments_def)

subsection \<open>Help rows\<close>

text \<open>
  \<open>max_name_length\<close> is an upper bound of the name lengths, and for a non-empty list it is the
  greatest of them.
\<close>

lemma fold_max_ge: "m \<le> fold (\<lambda>opt m. max m (length (plugin_Option.Name opt))) opts m"
proof (induction opts arbitrary: m)
  case Nil
  show ?case by simp
next
  case (Cons opt opts)
  have "m \<le> max m (length (plugin_Option.Name opt))" by simp
  also have "\<dots> \<le> fold (\<lambda>opt m. max m (length (plugin_Option.Name opt))) opts
      (max m (length (plugin_Option.Name opt)))"
    by (rule Cons.IH)
  finally show ?case by simp
qed

lemma fold_max_bound:
  "opt \<in> set opts \<Longrightarrow>
   length (plugin_Option.Name opt) \<le> fold (\<lambda>opt m. max m (length (plugin_Option.Name opt))) opts m"
proof (induction opts arbitrary: m)
  case Nil
  then show ?case by simp
next
  case (Cons x xs)
  show ?case
  proof (cases "opt = x")
    case True
    have "length (plugin_Option.Name x) \<le> max m (length (plugin_Option.Name x))" by simp
    also have "\<dots> \<le> fold (\<lambda>opt m. max m (length (plugin_Option.Name opt))) xs
        (max m (length (plugin_Option.Name x)))"
      by (rule fold_max_ge)
    finally show ?thesis using True by simp
  next
    case False
    with Cons.prems have "opt \<in> set xs" by simp
    then show ?thesis using Cons.IH by simp
  qed
qed

lemma max_name_length_bound:
  "opt \<in> set opts \<Longrightarrow> length (plugin_Option.Name opt) \<le> max_name_length opts"
  unfolding max_name_length_def by (rule fold_max_bound)

lemma fold_max_attained:
  "fold (\<lambda>opt m. max m (length (plugin_Option.Name opt))) opts m = m \<or>
   (\<exists>opt \<in> set opts. fold (\<lambda>opt m. max m (length (plugin_Option.Name opt))) opts m =
      length (plugin_Option.Name opt))"
proof (induction opts arbitrary: m)
  case Nil
  show ?case by simp
next
  case (Cons x xs)
  from Cons.IH [of "max m (length (plugin_Option.Name x))"] show ?case
    by (auto simp: max_def split: if_splits)
qed

lemma max_name_length_is_Max:
  "opts \<noteq> [] \<Longrightarrow> max_name_length opts = Max ((\<lambda>opt. length (plugin_Option.Name opt)) ` set opts)"
proof -
  assume ne: "opts \<noteq> []"
  let ?S = "(\<lambda>opt. length (plugin_Option.Name opt)) ` set opts"
  have fin: "finite ?S" and nonempty: "?S \<noteq> {}" using ne by simp_all
  have ub: "\<And>n. n \<in> ?S \<Longrightarrow> n \<le> max_name_length opts"
    using max_name_length_bound by auto
  have "max_name_length opts \<in> ?S"
  proof -
    from fold_max_attained [of opts 0] consider
      "max_name_length opts = 0"
      | opt where "opt \<in> set opts" "max_name_length opts = length (plugin_Option.Name opt)"
      unfolding max_name_length_def by auto
    then show ?thesis
    proof cases
      case 1
      from ne obtain x where x: "x \<in> set opts" by (cases opts) auto
      with max_name_length_bound [OF x] 1 have "length (plugin_Option.Name x) = 0" by simp
      with x 1 show ?thesis by force
    next
      case 2
      then show ?thesis by auto
    qed
  qed
  with fin ub have "Max ?S = max_name_length opts" by (intro Max_eqI)
  then show ?thesis by simp
qed

lemma align_collect_eq:
  "align_collect opts names descs mx =
     (names @ map plugin_Option.Name opts, descs @ map plugin_Option.Desc opts,
      fold (\<lambda>opt m. max m (length (plugin_Option.Name opt))) opts mx)"
proof (induction opts arbitrary: names descs mx)
  case Nil
  show ?case by simp
next
  case (Cons opt opts)
  have "(if mx \<le> length (plugin_Option.Name opt) then length (plugin_Option.Name opt) else mx) =
      max mx (length (plugin_Option.Name opt))"
    by (simp add: max_def)
  then show ?case by (simp add: Cons.IH)
qed

lemma Repeat_space: "0 \<le> n \<Longrightarrow> Repeat '' '' n = Return (replicate (nat n) (CHR '' ''))"
proof -
  have "concat (replicate k '' '') = replicate k (CHR '' '')" for k
    by (induction k) simp_all
  then show "0 \<le> n \<Longrightarrow> Repeat '' '' n = Return (replicate (nat n) (CHR '' ''))"
    by (simp add: Repeat_def)
qed

lemma align_rows_eq:
  assumes "\<forall>i \<in> set is. i < length names \<and> i < length descs"
    and "\<forall>n \<in> set names. length n \<le> mx"
  shows "align_rows is names descs mx ss =
     Return (ss @ map (\<lambda>i. ''    '' @ names ! i @ '':'' @
       replicate (2 + mx - length (names ! i)) (CHR '' '') @ descs ! i) is)"
  using assms(1)
proof (induction "is" arbitrary: ss)
  case Nil
  show ?case by simp
next
  case (Cons i "is")
  from Cons.prems have i: "i < length names" "i < length descs" by simp_all
  with assms(2) have le: "length (names ! i) \<le> mx" by simp
  then have "Repeat '' '' (2 + int mx - int (length (names ! i))) =
      Return (replicate (2 + mx - length (names ! i)) (CHR '' ''))"
    by (simp add: Repeat_space nat_diff_distrib' nat_add_distrib)
  moreover have "align_rows is names descs mx ss' =
     Return (ss' @ map (\<lambda>i. ''    '' @ names ! i @ '':'' @
       replicate (2 + mx - length (names ! i)) (CHR '' '') @ descs ! i) is)" for ss'
    using Cons.IH Cons.prems by simp
  ultimately show ?case using i by (simp add: index_def)
qed

lemma align_ss_eq: "align_ss opts = Return (map (row (max_name_length opts)) opts)"
proof -
  let ?names = "map plugin_Option.Name opts" and ?descs = "map plugin_Option.Desc opts"
  let ?mx = "max_name_length opts"
  have "align_ss opts = align_rows [0..<length opts] ?names ?descs ?mx []"
    by (simp add: align_ss_def align_collect_eq max_name_length_def)
  also have "\<dots> = Return ([] @ map (\<lambda>i. ''    '' @ ?names ! i @ '':'' @
       replicate (2 + ?mx - length (?names ! i)) (CHR '' '') @ ?descs ! i) [0..<length opts])"
    by (rule align_rows_eq) (auto simp: max_name_length_bound)
  also have "map (\<lambda>i. ''    '' @ ?names ! i @ '':'' @
       replicate (2 + ?mx - length (?names ! i)) (CHR '' '') @ ?descs ! i) [0..<length opts] =
     map (row ?mx) opts"
    by (rule nth_equalityI) (simp_all add: row_def)
  finally show ?thesis by simp
qed

lemma row_at_row:
  assumes "length (plugin_Option.Name opt) \<le> mx"
  shows "row_at (4 + mx + 3) (row mx opt) opt"
proof -
  let ?pad = "''    '' @ plugin_Option.Name opt @ '':'' @
     replicate (2 + mx - length (plugin_Option.Name opt)) (CHR '' '')"
  have len: "length ?pad = 4 + mx + 3" using assms by simp
  have row: "row mx opt = ?pad @ plugin_Option.Desc opt" by (simp add: row_def)
  have "take (length ?pad) (?pad @ plugin_Option.Desc opt) = ?pad"
    and "drop (length ?pad) (?pad @ plugin_Option.Desc opt) = plugin_Option.Desc opt"
    by (rule append_eq_conv_conj [THEN iffD1, THEN conjunct1, symmetric, OF refl],
        rule append_eq_conv_conj [THEN iffD1, THEN conjunct2, symmetric, OF refl])
  moreover have "4 + mx + 3 - 5 - length (plugin_Option.Name opt) =
      2 + mx - length (plugin_Option.Name opt)"
    using assms by simp
  ultimately show ?thesis
    unfolding row_at_def row len [symmetric]
    by (simp only: len length_append) simp
qed

lemma align_total: "align opts = Return (Join (map (row (max_name_length opts)) opts) nl)"
  by (simp add: align_def align_ss_eq)

text \<open>
  C7, amended. For every option list, \<open>align\<close> renders one row for each option, whatever its
  description is, and in every row the description begins at the same offset
  \<open>4 + max_name_length opts + 3\<close> from the start of the row, whatever the length of the
  option's own name: four spaces, the name, a colon, and at least two spaces come before it.
  For a non-empty list \<open>max_name_length opts\<close> is the greatest name length of the list.
  With the names \<open>a\<close> and \<open>bb\<close> the descriptions begin at offset 9.
\<close>

theorem align_description_offset:
  "description_at (4 + max_name_length opts + 3) opts \<and>
   (opts \<noteq> [] \<longrightarrow>
      max_name_length opts = Max ((\<lambda>opt. length (plugin_Option.Name opt)) ` set opts))"
proof -
  have "list_all2 (row_at (4 + max_name_length opts + 3)) (map (row (max_name_length opts)) opts) opts"
    unfolding list_all2_map1 list_all2_same
    using row_at_row max_name_length_bound by blast
  then show ?thesis by (simp add: description_at_def align_ss_eq max_name_length_is_Max)
qed

theorem align_description_offset_witness:
  "description_at (4 + 2 + 3) example_options \<and>
   description_at (4 + 1 + 3) [\<lparr>plugin_Option.Name = ''a'', Desc = ''''\<rparr>] \<and>
   align_ss [\<lparr>plugin_Option.Name = ''a'', Desc = ''''\<rparr>] = Return [''    a:  '']"
proof -
  have len: "max_name_length example_options = 2"
    "max_name_length [\<lparr>plugin_Option.Name = ''a'', Desc = ''''\<rparr>] = 1"
    by (simp_all add: max_name_length_def example_options_def)
  have "align_ss [\<lparr>plugin_Option.Name = ''a'', Desc = ''''\<rparr>] = Return [''    a:  '']"
    by (simp add: align_ss_def index_def Repeat_def upt_rec eval_nat_numeral)
  moreover have "description_at (4 + 2 + 3) example_options"
    using align_description_offset [of example_options] by (simp add: len(1))
  moreover have "description_at (4 + 1 + 3) [\<lparr>plugin_Option.Name = ''a'', Desc = ''''\<rparr>]"
    using align_description_offset [of "[\<lparr>plugin_Option.Name = ''a'', Desc = ''''\<rparr>]"]
    unfolding len(2) by (rule conjunct1)
  ultimately show ?thesis by simp
qed

text \<open>
  The offset \<open>4 + max_name_length opts + 2\<close> is one short, because of the colon: for the
  options \<open>a\<close> and \<open>bb\<close> the rows are as follows, and offset 8 holds a space in both.
\<close>

theorem align_description_offset_counterexample:
  "max_name_length example_options = 2 \<and>
   align_ss example_options = Return [''    a:   x'', ''    bb:  y''] \<and>
   \<not> description_at (4 + 2 + 2) example_options"
proof -
  have rows: "align_ss example_options = Return [''    a:   x'', ''    bb:  y'']"
    by (simp add: example_options_def align_ss_def index_def Repeat_def upt_rec eval_nat_numeral)
  have "max_name_length example_options = 2"
    by (simp add: max_name_length_def example_options_def)
  moreover have "\<not> description_at (4 + 2 + 2) example_options"
    by (simp add: description_at_def rows) (simp add: example_options_def row_at_def)
  ultimately show ?thesis using rows by simp
qed

subsection \<open>Parse\<close>

text \<open>
  \<open>help\<close> always ends the process with status 2, so flag parsing either returns with a nil
  error and an unchanged stream or ends the process with status 2; it never panics.
\<close>

lemma help_backends_returns: "\<exists>err'. help_backends bs err = (Return (), err')"
  by (induction bs arbitrary: err) (simp_all add: align_total Let_def)

lemma help_exits: "\<exists>err'. help' G err = (Exit 2, err')"
proof -
  obtain err' where
    "help_backends (AllBackend G) (err @ [Text (''Version: '' @ Version G @ nl)] @ [Text (usage @ nl)]) =
       (Return (), err')"
    using help_backends_returns by blast
  then show ?thesis by (simp add: help'_def Let_def)
qed

lemma FlagSet_Parse_cases:
  "(\<exists>a' rest. FlagSet_Parse G f a args err = (Return (a', rest, None), err)) \<or>
   (\<exists>err'. FlagSet_Parse G f a args err = (Exit 2, err'))"
proof (induction G f a args err rule: FlagSet_Parse.induct)
  case (1 G f a args err)
  show ?case
  proof (cases "parseOne f a args")
    case (Seen a' args')
    with "1.IH" [OF Seen] show ?thesis by (simp add: FlagSet_Parse.simps [of G f a args])
  next
    case (Done rest)
    then show ?thesis by (simp add: FlagSet_Parse.simps [of G f a args])
  next
    case (Failed e)
    obtain err' where "help' G (err @ [ErrorLine e]) = (Exit 2, err')"
      using help_exits by blast
    with Failed show ?thesis by (simp add: FlagSet_Parse.simps [of G f a args])
  next
    case Help
    obtain err' where "help' G err = (Exit 2, err')"
      using help_exits by blast
    with Help show ?thesis by (simp add: FlagSet_Parse.simps [of G f a args])
  qed
qed

lemma of_char_digit: "d < 10 \<Longrightarrow> of_char (digit d) = 48 + d"
proof -
  assume "d < 10"
  then have "d = 0 \<or> d = 1 \<or> d = 2 \<or> d = 3 \<or> d = 4 \<or> d = 5 \<or> d = 6 \<or> d = 7 \<or> d = 8 \<or> d = 9"
    by arith
  then show ?thesis by (elim disjE) (simp_all add: digit_def)
qed

lemma decimal_snoc: "decimal (ds @ [c]) = 10 * decimal ds + (of_char c - 48)"
  by (simp add: decimal_def)

lemma decimal_itoa: "decimal (itoa n) = n"
proof (induction n rule: itoa.induct)
  case (1 n)
  show ?case
  proof (cases "n < 10")
    case True
    then show ?thesis by (simp add: itoa.simps [of n] decimal_def of_char_digit)
  next
    case False
    have "of_char (digit n) = 48 + n mod 10"
      using of_char_digit [of "n mod 10"] by (simp add: digit_def)
    with False "1.IH" show ?thesis by (simp add: itoa.simps [of n] decimal_snoc)
  qed
qed


lemma Parse_after_flags:
  assumes "BuildFlags G a = Return (a0, f)"
    and "FlagSet_Parse G f a0 args err = (Return (a1, rest, None), err1)"
  shows "Parse G a (arg0 # args) err =
    (if AskVersion a1 then (Exit 0, err1 @ [Text (''thriftgo '' @ Version G @ nl)])
     else if length rest \<noteq> 1
     then (Exit 2, err1 @ [Text (''require exactly 1 argument for the IDL parameter, got: '' @
                                 itoa (length rest) @ nl)])
     else (Return (a1\<lparr>IDL := hd rest\<rparr>), err1))"
  using assms by (cases rest) (simp_all add: Parse_def)

text \<open>Evaluations of the flag set on the argument vectors of the examples.\<close>

lemma BuildFlags_example:
  "BuildFlags example_globals zero_Arguments =
     Return (zero_Arguments, \<lparr>name = ''thriftgo'', formal = registered\<rparr>)"
  by (simp add: BuildFlags_def example_globals_def zero_Arguments_def)

lemma FlagSet_Parse_example_one:
  "FlagSet_Parse example_globals \<lparr>name = ''thriftgo'', formal = registered\<rparr>
     zero_Arguments [''-r'', ''x.thrift''] [] =
   (Return (zero_Arguments\<lparr>Recursive := True\<rparr>, [''x.thrift''], None), [])"
  by (simp add: FlagSet_Parse.simps lookup_flag_def cut_value_def registered_def set_flag_def
      ParseBool_def)

lemma FlagSet_Parse_example_none:
  "FlagSet_Parse example_globals \<lparr>name = ''thriftgo'', formal = registered\<rparr>
     zero_Arguments [] [] =
   (Return (zero_Arguments, [], None), [])"
  by (simp add: FlagSet_Parse.simps)

lemma FlagSet_Parse_example_two:
  "FlagSet_Parse example_globals \<lparr>name = ''thriftgo'', formal = registered\<rparr>
     zero_Arguments [''a.thrift'', ''b.thrift''] [] =
   (Return (zero_Arguments, [''a.thrift'', ''b.thrift''], None), [])"
  by (simp add: FlagSet_Parse.simps)

lemma FlagSet_Parse_example_version:
  "FlagSet_Parse example_globals \<lparr>name = ''thriftgo'', formal = registered\<rparr>
     zero_Arguments [''-version'', ''a.thrift'', ''b.thrift''] [] =
   (Return (zero_Arguments\<lparr>AskVersion := True\<rparr>, [''a.thrift'', ''b.thrift''], None), [])"
  by (simp add: FlagSet_Parse.simps lookup_flag_def cut_value_def registered_def set_flag_def
      ParseBool_def)

text \<open>
  C1. Let the flags be built and flag parsing succeed on the arguments after the first,
  leaving the fields \<open>a1\<close> with the version flag unset and the tokens \<open>rest\<close>. If exactly one
  token remains, \<open>Parse\<close> returns and \<open>IDL\<close> is that token. If none or more than one remain,
  \<open>Parse\<close> ends the process with status 2 after printing the message about the IDL parameter,
  which ends with the number of remaining tokens in decimal.
\<close>

theorem Parse_positional:
  assumes "BuildFlags G a = Return (a0, f)"
    and "FlagSet_Parse G f a0 args err = (Return (a1, rest, None), err1)"
    and "\<not> AskVersion a1"
  shows "(\<forall>idl. rest = [idl] \<longrightarrow>
            Parse G a (arg0 # args) err = (Return (a1\<lparr>IDL := idl\<rparr>), err1)) \<and>
         (length rest \<noteq> 1 \<longrightarrow>
            Parse G a (arg0 # args) err =
              (Exit 2, err1 @ [Text (''require exactly 1 argument for the IDL parameter, got: '' @
                                     itoa (length rest) @ nl)]) \<and>
            decimal (itoa (length rest)) = length rest)"
  using assms(3) by (simp add: Parse_after_flags [OF assms(1,2)] decimal_itoa)

theorem Parse_positional_witness:
  "Parse example_globals zero_Arguments [''thriftgo'', ''-r'', ''x.thrift''] [] =
     (Return (zero_Arguments\<lparr>Recursive := True, IDL := ''x.thrift''\<rparr>), []) \<and>
   Parse example_globals zero_Arguments [''thriftgo''] [] =
     (Exit 2, [Text (''require exactly 1 argument for the IDL parameter, got: 0'' @ nl)]) \<and>
   Parse example_globals zero_Arguments [''thriftgo'', ''a.thrift'', ''b.thrift''] [] =
     (Exit 2, [Text (''require exactly 1 argument for the IDL parameter, got: 2'' @ nl)])"
proof -
  have unset: "\<not> AskVersion zero_Arguments" "\<not> AskVersion (zero_Arguments\<lparr>Recursive := True\<rparr>)"
    by (simp_all add: zero_Arguments_def)
  have digits: "itoa 0 = ''0''" "itoa (Suc (Suc 0)) = ''2''"
    by (simp_all add: itoa.simps digit_def)
  from
    Parse_positional [OF BuildFlags_example FlagSet_Parse_example_one unset(2), of "''thriftgo''"]
    Parse_positional [OF BuildFlags_example FlagSet_Parse_example_none unset(1), of "''thriftgo''"]
    Parse_positional [OF BuildFlags_example FlagSet_Parse_example_two unset(1), of "''thriftgo''"]
  show ?thesis by (simp add: digits nl_def)
qed

text \<open>
  C5. Let the flags be built and flag parsing succeed on the arguments after the first,
  leaving the version flag set. Then \<open>Parse\<close> prints \<open>thriftgo\<close> and the version and ends the
  process with status 0, whatever tokens remain: their number is not looked at. So an
  argument vector with \<open>--version\<close> alone after the program name ends with status 0.
\<close>

theorem Parse_version:
  "(BuildFlags G a = Return (a0, f) \<and>
    FlagSet_Parse G f a0 args err = (Return (a1, rest, None), err1) \<and> AskVersion a1 \<longrightarrow>
      Parse G a (arg0 # args) err = (Exit 0, err1 @ [Text (''thriftgo '' @ Version G @ nl)])) \<and>
   (os_Args G \<noteq> [] \<longrightarrow>
      Parse G a [arg0, ''--version''] err = (Exit 0, err @ [Text (''thriftgo '' @ Version G @ nl)]))"
proof -
  have "Parse G a [arg0, ''--version''] err = (Exit 0, err @ [Text (''thriftgo '' @ Version G @ nl)])"
    if os: "os_Args G \<noteq> []"
  proof -
    let ?a0 = "a\<lparr>AskVersion := False, Recursive := False, Verbose := False, Quiet := False,
                  OutputPath := []\<rparr>"
    from os obtain f' where b: "BuildFlags G a = Return (?a0, f')" and f': "formal f' = registered"
      by (cases "os_Args G") (simp_all add: BuildFlags_def)
    have "parseOne f' ?a0 [''--version''] = Seen (?a0\<lparr>AskVersion := True\<rparr>) []"
      using f' by (simp add: lookup_flag_def cut_value_def registered_def set_flag_def ParseBool_def)
    then have "FlagSet_Parse G f' ?a0 [''--version''] err =
        (Return (?a0\<lparr>AskVersion := True\<rparr>, [], None), err)"
      by (simp add: FlagSet_Parse.simps [of G f' _ "[''--version'']"]
          FlagSet_Parse.simps [of G f' _ "[]"])
    from Parse_after_flags [OF b this, of arg0] show ?thesis by simp
  qed
  moreover have
    "Parse G a (arg0 # args) err = (Exit 0, err1 @ [Text (''thriftgo '' @ Version G @ nl)])"
    if "BuildFlags G a = Return (a0, f)"
      and "FlagSet_Parse G f a0 args err = (Return (a1, rest, None), err1)" and "AskVersion a1"
    using that(3) by (simp add: Parse_after_flags [OF that(1,2)])
  ultimately show ?thesis by blast
qed

theorem Parse_version_witness:
  "Parse example_globals zero_Arguments [''thriftgo'', ''--version''] [] =
     (Exit 0, [Text (''thriftgo 0.1.0'' @ nl)]) \<and>
   Parse example_globals zero_Arguments [''thriftgo'', ''-version'', ''a.thrift'', ''b.thrift''] [] =
     (Exit 0, [Text (''thriftgo 0.1.0'' @ nl)])"
proof -
  have os: "os_Args example_globals \<noteq> []" and v: "Version example_globals = ''0.1.0''"
    by (simp_all add: example_globals_def)
  have asked: "AskVersion (zero_Arguments\<lparr>AskVersion := True\<rparr>)"
    by simp
  have "Parse example_globals zero_Arguments [''thriftgo'', ''--version''] [] =
      (Exit 0, [] @ [Text (''thriftgo '' @ Version example_globals @ nl)])"
    by (rule Parse_version [THEN conjunct2, THEN mp]) (rule os)
  moreover have
    "Parse example_globals zero_Arguments (''thriftgo'' # [''-version'', ''a.thrift'', ''b.thrift'']) [] =
      (Exit 0, [] @ [Text (''thriftgo '' @ Version example_globals @ nl)])"
    by (rule Parse_version [THEN conjunct1, THEN mp])
      (rule conjI, rule BuildFlags_example, rule conjI, rule FlagSet_Parse_example_version,
        rule asked)
  ultimately show ?thesis by (simp add: v)
qed

lemma Parse_empty_os_Args:
  "os_Args G = [] \<Longrightarrow> Parse G a argv err = (Panic ''index out of range: os.Args[0]'', err)"
  by (simp add: Parse_def BuildFlags_def)

lemma Parse_no_panic:
  assumes "os_Args G \<noteq> []"
  shows "fst (Parse G a (arg0 # args) err) \<noteq> Panic p"
proof -
  from assms obtain a0 f where b: "BuildFlags G a = Return (a0, f)"
    by (cases "os_Args G") (simp_all add: BuildFlags_def)
  from FlagSet_Parse_cases [of G f a0 args err] show ?thesis
  proof (elim disjE exE)
    fix a1 rest
    assume "FlagSet_Parse G f a0 args err = (Return (a1, rest, None), err)"
    then show ?thesis by (cases rest) (simp_all add: Parse_after_flags [OF b])
  next
    fix err'
    assume "FlagSet_Parse G f a0 args err = (Exit 2, err')"
    with b show ?thesis by (simp add: Parse_def)
  qed
qed

lemma Parse_through_flags:
  assumes "BuildFlags G a = Return (a0, f)"
  shows
    "(\<exists>a1 rest. FlagSet_Parse G f a0 args err = (Return (a1, rest, None), err) \<and>
        (AskVersion a1 \<and>
           Parse G a (arg0 # args) err = (Exit 0, err @ [Text (''thriftgo '' @ Version G @ nl)]) \<or>
         \<not> AskVersion a1 \<and> length rest \<noteq> 1 \<and>
           Parse G a (arg0 # args) err =
             (Exit 2, err @ [Text (''require exactly 1 argument for the IDL parameter, got: '' @
                                   itoa (length rest) @ nl)]) \<or>
         \<not> AskVersion a1 \<and>
           (\<exists>idl. rest = [idl] \<and> Parse G a (arg0 # args) err = (Return (a1\<lparr>IDL := idl\<rparr>), err)))) \<or>
     (\<exists>err'. FlagSet_Parse G f a0 args err = (Exit 2, err') \<and>
        Parse G a (arg0 # args) err = (Exit 2, err'))"
proof -
  from FlagSet_Parse_cases [of G f a0 args err] show ?thesis
  proof (elim disjE exE)
    fix a1 rest
    assume p: "FlagSet_Parse G f a0 args err = (Return (a1, rest, None), err)"
    note after = Parse_after_flags [OF assms p, of arg0]
    show ?thesis
    proof (cases "AskVersion a1")
      case True
      with after p show ?thesis by simp
    next
      case False
      show ?thesis
      proof (cases "length rest = 1")
        case True
        then obtain idl where "rest = [idl]"
          by (cases rest) simp_all
        with after False p show ?thesis by simp
      next
        case ne: False
        with after False p show ?thesis by simp
      qed
    qed
  next
    fix err'
    assume p: "FlagSet_Parse G f a0 args err = (Exit 2, err')"
    with assms have "Parse G a (arg0 # args) err = (Exit 2, err')"
      by (simp add: Parse_def)
    with p show ?thesis by blast
  qed
qed

text \<open>
  C10. \<open>Parse\<close> needs a non-empty argument vector: on the empty one it panics, in the slice
  expression \<open>argv[1:]\<close> whenever the flags could be built. On a non-empty vector the first
  element is dropped unread (the result does not depend on it), and exactly the elements
  after it are handed to the flag parser: when the flags can be built, either flag parsing
  of these elements returns the fields \<open>a1\<close> and the positional tokens \<open>rest\<close>, and \<open>Parse\<close>
  ends as the version flag in \<open>a1\<close> and the number of tokens in \<open>rest\<close> decide, with \<open>IDL\<close> the
  single token of \<open>rest\<close> on a normal return; or flag parsing of these elements ends the
  process with status 2, and so does \<open>Parse\<close>, with the same output. Neither \<open>argv[1:]\<close> nor
  \<open>rest[0]\<close> panics on a non-empty vector, and when the process has an argument vector (so
  that \<open>os.Args[0]\<close> in \<open>BuildFlags\<close> exists) nothing panics at all.
\<close>

theorem Parse_argument_vector:
  "(\<exists>p. Parse G a [] err = (Panic p, err)) \<and>
   (os_Args G \<noteq> [] \<longrightarrow> Parse G a [] err = (Panic ''slice bounds out of range: argv[1:]'', err)) \<and>
   Parse G a (arg0 # args) err = Parse G a (arg0' # args) err \<and>
   fst (Parse G a (arg0 # args) err) \<noteq> Panic ''slice bounds out of range: argv[1:]'' \<and>
   fst (Parse G a (arg0 # args) err) \<noteq> Panic ''index out of range: rest[0]'' \<and>
   (os_Args G \<noteq> [] \<longrightarrow> (\<forall>p. fst (Parse G a (arg0 # args) err) \<noteq> Panic p)) \<and>
   (os_Args G \<noteq> [] \<longrightarrow>
      (\<exists>a0 f. BuildFlags G a = Return (a0, f) \<and>
         ((\<exists>a1 rest. FlagSet_Parse G f a0 args err = (Return (a1, rest, None), err) \<and>
             (AskVersion a1 \<and>
                Parse G a (arg0 # args) err =
                  (Exit 0, err @ [Text (''thriftgo '' @ Version G @ nl)]) \<or>
              \<not> AskVersion a1 \<and> length rest \<noteq> 1 \<and>
                Parse G a (arg0 # args) err =
                  (Exit 2, err @ [Text (''require exactly 1 argument for the IDL parameter, got: '' @
                                        itoa (length rest) @ nl)]) \<or>
              \<not> AskVersion a1 \<and>
                (\<exists>idl. rest = [idl] \<and>
                   Parse G a (arg0 # args) err = (Return (a1\<lparr>IDL := idl\<rparr>), err)))) \<or>
          (\<exists>err'. FlagSet_Parse G f a0 args err = (Exit 2, err') \<and>
             Parse G a (arg0 # args) err = (Exit 2, err')))))"
proof (cases "os_Args G")
  case Nil
  then show ?thesis by (simp add: Parse_empty_os_Args)
next
  case (Cons n ns)
  then have ne: "os_Args G \<noteq> []" by simp
  from Cons obtain a0 f where b: "BuildFlags G a = Return (a0, f)"
    by (simp add: BuildFlags_def)
  have "Parse G a [] err = (Panic ''slice bounds out of range: argv[1:]'', err)"
    using Cons by (simp add: Parse_def BuildFlags_def)
  moreover have "Parse G a (arg0 # args) err = Parse G a (arg0' # args) err"
    by (cases "BuildFlags G a") (auto simp: Parse_def)
  moreover note Parse_no_panic [OF ne, of a arg0 args err]
  moreover have "\<exists>a0 f. BuildFlags G a = Return (a0, f) \<and>
         ((\<exists>a1 rest. FlagSet_Parse G f a0 args err = (Return (a1, rest, None), err) \<and>
             (AskVersion a1 \<and>
                Parse G a (arg0 # args) err =
                  (Exit 0, err @ [Text (''thriftgo '' @ Version G @ nl)]) \<or>
              \<not> AskVersion a1 \<and> length rest \<noteq> 1 \<and>
                Parse G a (arg0 # args) err =
                  (Exit 2, err @ [Text (''require exactly 1 argument for the IDL parameter, got: '' @
                                        itoa (length rest) @ nl)]) \<or>
              \<not> AskVersion a1 \<and>
                (\<exists>idl. rest = [idl] \<and>
                   Parse G a (arg0 # args) err = (Return (a1\<lparr>IDL := idl\<rparr>), err)))) \<or>
          (\<exists>err'. FlagSet_Parse G f a0 args err = (Exit 2, err') \<and>
             Parse G a (arg0 # args) err = (Exit 2, err')))"
    using b Parse_through_flags [OF b, of args err arg0] by blast
  ultimately show ?thesis by simp
qed

theorem Parse_argument_vector_witness:
  "Parse example_globals zero_Arguments [] [] =
     (Panic ''slice bounds out of range: argv[1:]'', []) \<and>
   Parse example_globals zero_Arguments [''--version'', ''-r'', ''x.thrift''] [] =
     Parse example_globals zero_Arguments [''thriftgo'', ''-r'', ''x.thrift''] [] \<and>
   (\<forall>p. fst (Parse example_globals zero_Arguments [''thriftgo'', ''-r'', ''x.thrift''] []) \<noteq> Panic p) \<and>
   Parse example_globals zero_Arguments [''--version'', ''-r'', ''x.thrift''] [] =
     (Return (zero_Arguments\<lparr>Recursive := True, IDL := ''x.thrift''\<rparr>), [])"
proof -
  have os: "os_Args example_globals \<noteq> []"
    by (simp add: example_globals_def)
  have unset: "\<not> AskVersion (zero_Arguments\<lparr>Recursive := True\<rparr>)"
    by (simp add: zero_Arguments_def)
  note thm1 = Parse_argument_vector [of example_globals zero_Arguments "[]" "''--version''"
      "[''-r'', ''x.thrift'']" "''thriftgo''"]
  note thm2 = Parse_argument_vector [of example_globals zero_Arguments "[]" "''thriftgo''"
      "[''-r'', ''x.thrift'']" "''thriftgo''"]
  from thm1 os have first: "Parse example_globals zero_Arguments [] [] =
      (Panic ''slice bounds out of range: argv[1:]'', [])"
    and same: "Parse example_globals zero_Arguments [''--version'', ''-r'', ''x.thrift''] [] =
      Parse example_globals zero_Arguments [''thriftgo'', ''-r'', ''x.thrift''] []"
    by simp_all
  from thm2 os have safe:
    "\<forall>p. fst (Parse example_globals zero_Arguments [''thriftgo'', ''-r'', ''x.thrift''] []) \<noteq> Panic p"
    by simp
  have "Parse example_globals zero_Arguments [''--version'', ''-r'', ''x.thrift''] [] =
      (Return (zero_Arguments\<lparr>Recursive := True, IDL := ''x.thrift''\<rparr>), [])"
    using thm1 os unset by (auto simp: BuildFlags_example FlagSet_Parse_example_one)
  with first same safe show ?thesis by simp
qed








end
